theory Spec2Isabelle
  imports Main "HOL-Library.Word"
begin

section \<open>The NEP5 token contract of NEP5Token.py\<close>

text \<open>
  The contract keeps balances and allowances in one key-value storage of the host and
  asks the host whether an address has signed the invocation. Both are effects of the
  source (\<^verbatim>\<open>Get\<close>, \<^verbatim>\<open>Put\<close>, \<^verbatim>\<open>Delete\<close>, \<^verbatim>\<open>CheckWitness\<close>, the two
  registered actions), so the model passes an explicit machine state through every
  function: the storage, the host's witness answers, the trace of witness queries and
  the list of dispatched events.
\<close>

subsection \<open>Data\<close>

type_synonym bytearray = "8 word list"

datatype event =
  TransferEvent bytearray bytearray int
| ApprovalEvent bytearray bytearray int

record state =
  storage :: "bytearray \<rightharpoonup> int"
  witnesses :: "bytearray \<Rightarrow> bool"
  checked :: "bytearray list"
  notifications :: "event list"

subsection \<open>Interop calls\<close>

text \<open>
  \<^verbatim>\<open>Get(context, key)\<close>: a key that was never written reads as zero. There is a single
  storage context, so \<^verbatim>\<open>GetContext()\<close> carries no information and is left out.
\<close>

definition Get :: "state \<Rightarrow> bytearray \<Rightarrow> int" where
  "Get s key = (case storage s key of None \<Rightarrow> 0 | Some v \<Rightarrow> v)"

definition Put :: "bytearray \<Rightarrow> int \<Rightarrow> state \<Rightarrow> state" where
  "Put key v s = s\<lparr>storage := (storage s)(key \<mapsto> v)\<rparr>"

definition Delete :: "bytearray \<Rightarrow> state \<Rightarrow> state" where
  "Delete key s = s\<lparr>storage := (storage s)(key := None)\<rparr>"

text \<open>
  \<^verbatim>\<open>CheckWitness(addr)\<close> returns the host's answer; the query is recorded so that
  a path that never asks can be told from one that asks and ignores the answer.
\<close>

definition CheckWitness :: "bytearray \<Rightarrow> state \<Rightarrow> bool \<times> state" where
  "CheckWitness addr s = (witnesses s addr, s\<lparr>checked := checked s @ [addr]\<rparr>)"

definition DispatchTransferEvent :: "bytearray \<Rightarrow> bytearray \<Rightarrow> int \<Rightarrow> state \<Rightarrow> state" where
  "DispatchTransferEvent t_from t_to amount s =
     s\<lparr>notifications := notifications s @ [TransferEvent t_from t_to amount]\<rparr>"

definition DispatchApproveEvent :: "bytearray \<Rightarrow> bytearray \<Rightarrow> int \<Rightarrow> state \<Rightarrow> state" where
  "DispatchApproveEvent t_owner t_spender amount s =
     s\<lparr>notifications := notifications s @ [ApprovalEvent t_owner t_spender amount]\<rparr>"

text \<open>\<^verbatim>\<open>concat(a, b)\<close> of the builtins joins two byte arrays with no separator.\<close>

definition concat_bytes :: "bytearray \<Rightarrow> bytearray \<Rightarrow> bytearray" where
  "concat_bytes a b = a @ b"

subsection \<open>The four operations\<close>

definition DoTransfer :: "bytearray \<Rightarrow> bytearray \<Rightarrow> int \<Rightarrow> state \<Rightarrow> bool \<times> state" where
  "DoTransfer t_from t_to amount s =
     (if amount \<le> 0 then (False, s)
      else
        let (from_is_sender, s1) = CheckWitness t_from s in
        if \<not> from_is_sender then (False, s1)
        else if t_from = t_to then (True, s1)
        else
          let from_val = Get s1 t_from in
          if from_val < amount then (False, s1)
          else
            let s2 = (if from_val = amount then Delete t_from s1
                      else let difference = from_val - amount
                           in Put t_from difference s1);
                to_value = Get s2 t_to;
                to_total = to_value + amount;
                s3 = Put t_to to_total s2;
                s4 = DispatchTransferEvent t_from t_to amount s3
            in (True, s4))"

definition DoTransferFrom :: "bytearray \<Rightarrow> bytearray \<Rightarrow> int \<Rightarrow> state \<Rightarrow> bool \<times> state" where
  "DoTransferFrom t_from t_to amount s =
     (if amount \<le> 0 then (False, s)
      else
        let allowance_key = concat_bytes t_from t_to;
            available_to_to_addr = Get s allowance_key in
        if available_to_to_addr < amount then (False, s)
        else
          let from_balance = Get s t_from in
          if from_balance < amount then (False, s)
          else
            let to_balance = Get s t_to;
                new_from_balance = from_balance - amount;
                new_to_balance = to_balance + amount;
                new_allowance = available_to_to_addr - amount;
                s1 = Put allowance_key new_allowance s;
                s2 = Put t_to new_to_balance s1;
                s3 = Put t_from new_from_balance s2;
                s4 = DispatchTransferEvent t_from t_to amount s3
            in (True, s4))"

definition DoApprove :: "bytearray \<Rightarrow> bytearray \<Rightarrow> int \<Rightarrow> state \<Rightarrow> bool \<times> state" where
  "DoApprove t_owner t_spender amount s =
     (let (owner_is_sender, s1) = CheckWitness t_owner s in
      if \<not> owner_is_sender then (False, s1)
      else
        let from_balance = Get s1 t_owner in
        if from_balance \<ge> amount then
          let approval_key = concat_bytes t_owner t_spender;
              current_approved_balance = Get s1 approval_key;
              new_approved_balance = current_approved_balance + amount;
              s2 = Put approval_key new_approved_balance s1;
              s3 = DispatchApproveEvent t_owner t_spender amount s2
          in (True, s3)
        else (False, s1))"

definition GetAllowance :: "bytearray \<Rightarrow> bytearray \<Rightarrow> state \<Rightarrow> int \<times> state" where
  "GetAllowance t_owner t_spender s =
     (let allowance_key = concat_bytes t_owner t_spender;
          amount = Get s allowance_key
      in (amount, s))"

subsection \<open>Specification vocabulary\<close>

text \<open>
  The sum of the balances of a finite set of addresses. The storage holds allowances
  under keys of its own, so the total supply is the sum over the address keys only.
\<close>

definition balance_sum :: "bytearray set \<Rightarrow> state \<Rightarrow> int" where
  "balance_sum A s = (\<Sum>a\<in>A. Get s a)"

text \<open>Addresses and states used in the worked scenarios.\<close>

definition alice :: bytearray where "alice = [0x41]"
definition bob :: bytearray where "bob = [0x42]"

definition ledger :: "(bytearray \<rightharpoonup> int) \<Rightarrow> state" where
  "ledger m = \<lparr>storage = m, witnesses = (\<lambda>a. a = alice), checked = [], notifications = []\<rparr>"

section \<open>What each operation returns and leaves behind\<close>

lemmas prim_defs = Get_def Put_def Delete_def CheckWitness_def DispatchTransferEvent_def
  DispatchApproveEvent_def concat_bytes_def

subsection \<open>Reads after the interop calls\<close>

lemma Get_Put [simp]: "Get (Put k v s) k' = (if k' = k then v else Get s k')"
  by (simp add: Get_def Put_def)

lemma Get_Delete [simp]: "Get (Delete k s) k' = (if k' = k then 0 else Get s k')"
  by (simp add: Get_def Delete_def)

lemma Get_DispatchTransferEvent [simp]: "Get (DispatchTransferEvent f t a s) k = Get s k"
  by (simp add: Get_def DispatchTransferEvent_def)

lemma Get_DispatchApproveEvent [simp]: "Get (DispatchApproveEvent f t a s) k = Get s k"
  by (simp add: Get_def DispatchApproveEvent_def)

lemma Get_checked_update [simp]: "Get (s\<lparr>checked := c\<rparr>) k = Get s k"
  by (simp add: Get_def)

lemma Get_witnesses_update [simp]: "Get (s\<lparr>witnesses := w\<rparr>) k = Get s k"
  by (simp add: Get_def)

lemma Get_ledger: "Get (ledger m) k = (case m k of None \<Rightarrow> 0 | Some v \<Rightarrow> v)"
  by (simp add: Get_def ledger_def)

lemma ledger_fields:
  "storage (ledger m) = m" "witnesses (ledger m) a = (a = alice)"
  "checked (ledger m) = []" "notifications (ledger m) = []"
  by (simp_all add: ledger_def)

lemmas scenario_defs = Get_ledger ledger_fields alice_def bob_def concat_bytes_def
  balance_sum_def

subsection \<open>DoTransfer\<close>

lemma DoTransfer_fst:
  "fst (DoTransfer f t a s) = (0 < a \<and> witnesses s f \<and> (f = t \<or> a \<le> Get s f))"
  by (simp add: DoTransfer_def CheckWitness_def Let_def not_less)

lemma DoTransfer_storage:
  "storage (snd (DoTransfer f t a s)) =
     (if 0 < a \<and> witnesses s f \<and> f \<noteq> t \<and> a \<le> Get s f
      then (if Get s f = a then (storage s)(f := None, t \<mapsto> Get s t + a)
            else (storage s)(f \<mapsto> Get s f - a, t \<mapsto> Get s t + a))
      else storage s)"
  by (simp add: DoTransfer_def prim_defs Let_def not_less)

lemma DoTransfer_notifications:
  "notifications (snd (DoTransfer f t a s)) =
     (if 0 < a \<and> witnesses s f \<and> f \<noteq> t \<and> a \<le> Get s f
      then notifications s @ [TransferEvent f t a] else notifications s)"
  by (simp add: DoTransfer_def prim_defs Let_def not_less)

lemma DoTransfer_checked:
  "checked (snd (DoTransfer f t a s)) = (if 0 < a then checked s @ [f] else checked s)"
  by (simp add: DoTransfer_def prim_defs Let_def)

lemma DoTransfer_witnesses: "witnesses (snd (DoTransfer f t a s)) = witnesses s"
  by (simp add: DoTransfer_def prim_defs Let_def)

lemma Get_after_DoTransfer:
  "Get (snd (DoTransfer f t a s)) k =
     (if fst (DoTransfer f t a s) \<and> f \<noteq> t then
        (if k = t then Get s t + a else if k = f then Get s f - a else Get s k)
      else Get s k)"
  by (simp add: Get_def DoTransfer_storage DoTransfer_fst)

subsection \<open>DoTransferFrom\<close>

lemma DoTransferFrom_fst:
  "fst (DoTransferFrom f t a s) = (0 < a \<and> a \<le> Get s (concat_bytes f t) \<and> a \<le> Get s f)"
  by (simp add: DoTransferFrom_def Let_def not_less)

lemma DoTransferFrom_fails:
  "\<not> fst (DoTransferFrom f t a s) \<Longrightarrow> DoTransferFrom f t a s = (False, s)"
  by (simp add: DoTransferFrom_def Let_def not_less split: if_splits)

lemma DoTransferFrom_storage:
  "storage (snd (DoTransferFrom f t a s)) =
     (if fst (DoTransferFrom f t a s)
      then (storage s)(concat_bytes f t \<mapsto> Get s (concat_bytes f t) - a,
                       t \<mapsto> Get s t + a, f \<mapsto> Get s f - a)
      else storage s)"
  by (simp add: DoTransferFrom_def Let_def not_less Get_def Put_def DispatchTransferEvent_def)

lemma DoTransferFrom_notifications:
  "notifications (snd (DoTransferFrom f t a s)) =
     (if fst (DoTransferFrom f t a s)
      then notifications s @ [TransferEvent f t a] else notifications s)"
  by (simp add: DoTransferFrom_def Let_def not_less Put_def DispatchTransferEvent_def)

lemma DoTransferFrom_checked: "checked (snd (DoTransferFrom f t a s)) = checked s"
  by (simp add: DoTransferFrom_def Let_def Put_def DispatchTransferEvent_def)

lemma DoTransferFrom_witnesses: "witnesses (snd (DoTransferFrom f t a s)) = witnesses s"
  by (simp add: DoTransferFrom_def Let_def Put_def DispatchTransferEvent_def)

lemma DoTransferFrom_oracle_free:
  "DoTransferFrom f t a (s\<lparr>witnesses := w\<rparr>) =
     (fst (DoTransferFrom f t a s), (snd (DoTransferFrom f t a s))\<lparr>witnesses := w\<rparr>)"
  by (simp add: DoTransferFrom_def Let_def Put_def DispatchTransferEvent_def)

lemma Get_after_DoTransferFrom:
  "Get (snd (DoTransferFrom f t a s)) k =
     (if fst (DoTransferFrom f t a s) then
        (if k = f then Get s f - a
         else if k = t then Get s t + a
         else if k = concat_bytes f t then Get s (concat_bytes f t) - a
         else Get s k)
      else Get s k)"
  by (simp add: Get_def DoTransferFrom_storage)

subsection \<open>DoApprove and GetAllowance\<close>

lemma DoApprove_fst:
  "fst (DoApprove ow sp a s) = (witnesses s ow \<and> a \<le> Get s ow)"
  by (simp add: DoApprove_def CheckWitness_def Let_def Get_def)

lemma DoApprove_storage:
  "storage (snd (DoApprove ow sp a s)) =
     (if witnesses s ow \<and> a \<le> Get s ow
      then (storage s)(concat_bytes ow sp \<mapsto> Get s (concat_bytes ow sp) + a)
      else storage s)"
  by (simp add: DoApprove_def CheckWitness_def Let_def Get_def Put_def DispatchApproveEvent_def)

lemma DoApprove_notifications:
  "notifications (snd (DoApprove ow sp a s)) =
     (if witnesses s ow \<and> a \<le> Get s ow
      then notifications s @ [ApprovalEvent ow sp a] else notifications s)"
  by (simp add: DoApprove_def CheckWitness_def Let_def Get_def Put_def DispatchApproveEvent_def)

lemma DoApprove_witnesses: "witnesses (snd (DoApprove ow sp a s)) = witnesses s"
  by (simp add: DoApprove_def CheckWitness_def Let_def Put_def DispatchApproveEvent_def)

lemma Get_after_DoApprove:
  "Get (snd (DoApprove ow sp a s)) k =
     (if fst (DoApprove ow sp a s) \<and> k = concat_bytes ow sp
      then Get s (concat_bytes ow sp) + a else Get s k)"
  by (simp add: Get_def DoApprove_storage DoApprove_fst)

lemma GetAllowance_eq: "GetAllowance ow sp s = (Get s (concat_bytes ow sp), s)"
  by (simp add: GetAllowance_def Let_def)

section \<open>Conservation under a direct transfer\<close>

lemma sum_move:
  fixes g h :: "'a \<Rightarrow> int"
  assumes "finite A" "f \<in> A" "t \<in> A" "f \<noteq> t"
    and "\<And>k. k \<in> A \<Longrightarrow> g k = (if k = t then h t + a else if k = f then h f - a else h k)"
  shows "sum g A = sum h A"
proof -
  have t: "t \<in> A - {f}" using assms by simp
  have fin: "finite (A - {f})" using assms by simp
  have rest: "sum g (A - {f} - {t}) = sum h (A - {f} - {t})"
    by (rule sum.cong) (simp_all add: assms(5))
  have "sum g A = g f + (g t + sum g (A - {f} - {t}))"
    by (simp only: sum.remove[OF assms(1,2)] sum.remove[OF fin t])
  also have "\<dots> = h f + (h t + sum h (A - {f} - {t}))"
    using assms(2,3,4) by (simp add: rest assms(5))
  also have "\<dots> = sum h A"
    by (simp only: sum.remove[OF assms(1,2)] sum.remove[OF fin t])
  finally show ?thesis .
qed

lemma balance_sum_cong:
  "(\<And>k. k \<in> A \<Longrightarrow> Get s' k = Get s k) \<Longrightarrow> balance_sum A s' = balance_sum A s"
  unfolding balance_sum_def by (rule sum.cong) simp_all

text \<open>
  Claim C1. A direct transfer that succeeds between two different addresses takes
  exactly \<open>a\<close> from the sender's balance and adds exactly \<open>a\<close> to the recipient's, and the
  sum of the balances over any finite set of addresses that holds both parties (so over
  all addresses with a balance) is the same afterwards as before.
\<close>

theorem transfer_moves_amount:
  assumes "fst (DoTransfer f t a s)" and "f \<noteq> t" and "finite A" and "f \<in> A" and "t \<in> A"
  shows "Get (snd (DoTransfer f t a s)) f + a = Get s f
       \<and> Get (snd (DoTransfer f t a s)) t = Get s t + a
       \<and> balance_sum A (snd (DoTransfer f t a s)) = balance_sum A s"
proof -
  have G: "\<And>k. Get (snd (DoTransfer f t a s)) k =
     (if k = t then Get s t + a else if k = f then Get s f - a else Get s k)"
    using assms(1,2) by (simp add: Get_after_DoTransfer)
  have "balance_sum A (snd (DoTransfer f t a s)) = balance_sum A s"
    unfolding balance_sum_def by (rule sum_move[OF assms(3,4,5,2)]) (rule G)
  with G assms(2) show ?thesis by simp
qed

text \<open>The scenario of the specification: balances 100 and 0, a transfer of 40.\<close>

theorem transfer_moves_amount_witness:
  "fst (DoTransfer alice bob 40 (ledger (Map.empty(alice \<mapsto> 100, bob \<mapsto> 0))))
   \<and> alice \<noteq> bob
   \<and> Get (snd (DoTransfer alice bob 40 (ledger (Map.empty(alice \<mapsto> 100, bob \<mapsto> 0))))) alice = 60
   \<and> Get (snd (DoTransfer alice bob 40 (ledger (Map.empty(alice \<mapsto> 100, bob \<mapsto> 0))))) bob = 40
   \<and> balance_sum {alice, bob}
        (snd (DoTransfer alice bob 40 (ledger (Map.empty(alice \<mapsto> 100, bob \<mapsto> 0))))) = 100"
proof -
  let ?s = "ledger (Map.empty(alice \<mapsto> 100, bob \<mapsto> 0))"
  have ne: "alice \<noteq> bob" by (simp add: alice_def bob_def)
  have ok: "fst (DoTransfer alice bob 40 ?s)"
    by (simp add: DoTransfer_fst scenario_defs)
  have before: "Get ?s alice = 100" "Get ?s bob = 0" "balance_sum {alice, bob} ?s = 100"
    by (simp_all add: scenario_defs)
  from transfer_moves_amount[OF ok ne, of "{alice, bob}"] ne ok before
  show ?thesis by simp
qed

section \<open>Balances and allowances across all four operations\<close>

subsection \<open>Where the balance sum is kept\<close>

lemma DoTransfer_balance_sum:
  assumes "finite A" and "f \<in> A \<longleftrightarrow> t \<in> A"
  shows "balance_sum A (snd (DoTransfer f t a s)) = balance_sum A s"
proof (cases "fst (DoTransfer f t a s) \<and> f \<noteq> t")
  case False
  then show ?thesis by (intro balance_sum_cong) (auto simp: Get_after_DoTransfer)
next
  case ok: True
  show ?thesis
  proof (cases "f \<in> A")
    case True
    with assms have t: "t \<in> A" by simp
    from ok have ne: "f \<noteq> t" by simp
    have "\<And>k. Get (snd (DoTransfer f t a s)) k =
       (if k = t then Get s t + a else if k = f then Get s f - a else Get s k)"
      using ok by (simp add: Get_after_DoTransfer)
    then show ?thesis
      unfolding balance_sum_def by (intro sum_move[OF assms(1) True t ne])
  next
    case False
    with assms have "t \<notin> A" by simp
    with False show ?thesis
      by (intro balance_sum_cong) (auto simp: Get_after_DoTransfer)
  qed
qed

lemma DoTransferFrom_balance_sum:
  assumes "finite A" and "f \<in> A" and "t \<in> A" and "f \<noteq> t" and "concat_bytes f t \<notin> A"
  shows "balance_sum A (snd (DoTransferFrom f t a s)) = balance_sum A s"
proof (cases "fst (DoTransferFrom f t a s)")
  case False
  then show ?thesis by (intro balance_sum_cong) (simp add: Get_after_DoTransferFrom)
next
  case True
  have "\<And>k. k \<in> A \<Longrightarrow> Get (snd (DoTransferFrom f t a s)) k =
     (if k = t then Get s t + a else if k = f then Get s f - a else Get s k)"
    using True assms(4,5) by (auto simp: Get_after_DoTransferFrom)
  then show ?thesis
    unfolding balance_sum_def by (rule sum_move[OF assms(1,2,3,4)])
qed

lemma DoApprove_balance_sum:
  assumes "concat_bytes ow sp \<notin> A"
  shows "balance_sum A (snd (DoApprove ow sp a s)) = balance_sum A s"
  using assms by (intro balance_sum_cong) (auto simp: Get_after_DoApprove)

lemma GetAllowance_balance_sum:
  "balance_sum A (snd (GetAllowance ow sp s)) = balance_sum A s"
  by (simp add: GetAllowance_eq)

text \<open>
  Claim C2. The sum of the balances is not kept by every operation: a delegated
  transfer from an address to itself writes the recipient's new balance and then
  overwrites it with the sender's, so the amount leaves the supply. An owner holding
  100 approves 10 to itself; the delegated transfer of 10 from the owner to itself then
  succeeds and the sum of the balances falls from 100 to 90.
\<close>

theorem transferFrom_self_loses_supply:
  "fst (DoApprove alice alice 10 (ledger (Map.empty(alice \<mapsto> 100))))
   \<and> balance_sum {alice}
        (snd (DoApprove alice alice 10 (ledger (Map.empty(alice \<mapsto> 100))))) = 100
   \<and> fst (DoTransferFrom alice alice 10
        (snd (DoApprove alice alice 10 (ledger (Map.empty(alice \<mapsto> 100))))))
   \<and> balance_sum {alice}
        (snd (DoTransferFrom alice alice 10
           (snd (DoApprove alice alice 10 (ledger (Map.empty(alice \<mapsto> 100))))))) = 90"
  by (simp add: DoTransferFrom_fst Get_after_DoTransferFrom DoApprove_fst Get_after_DoApprove
      scenario_defs)

subsection \<open>Where no stored value turns negative\<close>

lemma DoTransfer_nonneg:
  "(\<And>k. 0 \<le> Get s k) \<Longrightarrow> 0 \<le> Get (snd (DoTransfer f t a s)) k"
  by (auto simp: Get_after_DoTransfer DoTransfer_fst intro: add_nonneg_nonneg)

lemma DoTransferFrom_nonneg:
  "(\<And>k. 0 \<le> Get s k) \<Longrightarrow> 0 \<le> Get (snd (DoTransferFrom f t a s)) k"
  by (auto simp: Get_after_DoTransferFrom DoTransferFrom_fst intro: add_nonneg_nonneg)

lemma DoApprove_nonneg:
  "(\<And>k. 0 \<le> Get s k) \<Longrightarrow> 0 \<le> a \<Longrightarrow> 0 \<le> Get (snd (DoApprove ow sp a s)) k"
  by (auto simp: Get_after_DoApprove intro: add_nonneg_nonneg)

text \<open>
  Claim C3. An approval is not guarded against a negative amount, as both transfers
  are: with a balance of 100 and no allowance, approving \<open>- 5\<close> succeeds (the balance is
  not below the amount) and the stored allowance, read back by the allowance query, is
  \<open>- 5\<close>.
\<close>

theorem approve_negative_amount:
  "fst (GetAllowance alice bob (ledger (Map.empty(alice \<mapsto> 100)))) = 0
   \<and> fst (DoApprove alice bob (- 5) (ledger (Map.empty(alice \<mapsto> 100))))
   \<and> fst (GetAllowance alice bob
        (snd (DoApprove alice bob (- 5) (ledger (Map.empty(alice \<mapsto> 100)))))) = - 5"
  by (simp add: GetAllowance_eq DoApprove_fst Get_after_DoApprove scenario_defs)

section \<open>The delegated transfer is gated by the allowance alone\<close>

text \<open>
  Claim C5. When the allowance stored under the key of the pair (from, to) is below the
  amount, a delegated transfer returns false and hands back the state it was given,
  whatever the balance of the sender. No delegated transfer asks the host about a
  witness: the trace of witness queries is unchanged, and replacing the host's answers
  changes neither the result nor the state left behind.
\<close>

theorem transferFrom_allowance_gate:
  "(Get s (concat_bytes f t) < a \<longrightarrow> DoTransferFrom f t a s = (False, s))
   \<and> checked (snd (DoTransferFrom f t a s)) = checked s
   \<and> DoTransferFrom f t a (s\<lparr>witnesses := w\<rparr>) =
       (fst (DoTransferFrom f t a s), (snd (DoTransferFrom f t a s))\<lparr>witnesses := w\<rparr>)"
proof -
  have "Get s (concat_bytes f t) < a \<longrightarrow> DoTransferFrom f t a s = (False, s)"
    by (simp add: DoTransferFrom_fails DoTransferFrom_fst)
  then show ?thesis
    by (simp add: DoTransferFrom_checked DoTransferFrom_oracle_free)
qed

text \<open>A balance of 100 and no allowance: a delegated transfer of 30 is refused.\<close>

theorem transferFrom_allowance_gate_witness:
  "Get (ledger (Map.empty(alice \<mapsto> 100))) (concat_bytes alice bob) < 30
   \<and> 30 \<le> Get (ledger (Map.empty(alice \<mapsto> 100))) alice
   \<and> DoTransferFrom alice bob 30 (ledger (Map.empty(alice \<mapsto> 100)))
       = (False, ledger (Map.empty(alice \<mapsto> 100)))"
proof -
  let ?s = "ledger (Map.empty(alice \<mapsto> 100))"
  have low: "Get ?s (concat_bytes alice bob) < 30" and enough: "30 \<le> Get ?s alice"
    by (simp_all add: scenario_defs)
  from transferFrom_allowance_gate[of ?s alice bob 30] low
  have "DoTransferFrom alice bob 30 ?s = (False, ?s)" by blast
  with low enough show ?thesis by simp
qed

section \<open>Direct transfers that fail, and transfers to oneself\<close>

text \<open>
  Claim C6, as stated, fails: an authorized transfer of 5 from an address to itself
  returns true although the balance, zero, is below the amount.
\<close>

theorem transfer_self_insufficient_succeeds:
  "Get (ledger Map.empty) alice < 5 \<and> fst (DoTransfer alice alice 5 (ledger Map.empty))"
  by (simp add: DoTransfer_fst scenario_defs)

text \<open>
  Claim C6, amended. A direct transfer returns false, writes and deletes no storage key
  and dispatches no event when the amount is not positive, or the caller is not
  authorized as the sender, or the two addresses differ and the sender's balance is
  below the amount.
\<close>

theorem transfer_failure_atomic:
  assumes "a \<le> 0 \<or> \<not> witnesses s f \<or> (f \<noteq> t \<and> Get s f < a)"
  shows "\<not> fst (DoTransfer f t a s)
       \<and> storage (snd (DoTransfer f t a s)) = storage s
       \<and> notifications (snd (DoTransfer f t a s)) = notifications s"
  using assms
  by (auto simp: DoTransfer_fst DoTransfer_storage DoTransfer_notifications)

theorem transfer_failure_atomic_witness:
  "\<not> fst (DoTransfer alice bob 0 (ledger (Map.empty(alice \<mapsto> 100))))
   \<and> storage (snd (DoTransfer alice bob 0 (ledger (Map.empty(alice \<mapsto> 100)))))
       = Map.empty(alice \<mapsto> 100)
   \<and> \<not> fst (DoTransfer bob alice 10 (ledger (Map.empty(bob \<mapsto> 100))))
   \<and> storage (snd (DoTransfer bob alice 10 (ledger (Map.empty(bob \<mapsto> 100)))))
       = Map.empty(bob \<mapsto> 100)
   \<and> \<not> fst (DoTransfer alice bob 101 (ledger (Map.empty(alice \<mapsto> 100))))
   \<and> storage (snd (DoTransfer alice bob 101 (ledger (Map.empty(alice \<mapsto> 100)))))
       = Map.empty(alice \<mapsto> 100)
   \<and> notifications (snd (DoTransfer alice bob 101 (ledger (Map.empty(alice \<mapsto> 100)))))
       = []"
proof -
  let ?s = "ledger (Map.empty(alice \<mapsto> 100))"
  let ?r = "ledger (Map.empty(bob \<mapsto> 100))"
  have h1: "(0::int) \<le> 0 \<or> \<not> witnesses ?s alice \<or> (alice \<noteq> bob \<and> Get ?s alice < 0)"
    by simp
  have h2: "(10::int) \<le> 0 \<or> \<not> witnesses ?r bob \<or> (bob \<noteq> alice \<and> Get ?r bob < 10)"
    by (simp add: scenario_defs)
  have h3: "(101::int) \<le> 0 \<or> \<not> witnesses ?s alice \<or> (alice \<noteq> bob \<and> Get ?s alice < 101)"
    by (simp add: scenario_defs)
  from transfer_failure_atomic[OF h1] transfer_failure_atomic[OF h2]
    transfer_failure_atomic[OF h3]
  show ?thesis by (simp add: ledger_fields)
qed

text \<open>
  Claim C7, as stated, fails: a transfer of the amount zero from an authorized address
  to itself returns false.
\<close>

theorem transfer_self_zero_fails:
  "witnesses (ledger (Map.empty(alice \<mapsto> 100))) alice
   \<and> \<not> fst (DoTransfer alice alice 0 (ledger (Map.empty(alice \<mapsto> 100))))"
  by (simp add: DoTransfer_fst scenario_defs)

text \<open>
  Claim C7, amended. A direct transfer from an address to itself returns true exactly
  when the amount is positive and the caller is authorized as that address; in every
  case it leaves the whole storage unchanged and dispatches no event.
\<close>

theorem transfer_self_noop:
  "fst (DoTransfer f f a s) = (0 < a \<and> witnesses s f)
   \<and> storage (snd (DoTransfer f f a s)) = storage s
   \<and> notifications (snd (DoTransfer f f a s)) = notifications s"
  by (simp add: DoTransfer_fst DoTransfer_storage DoTransfer_notifications)

section \<open>Approvals add up and are capped by the balance\<close>

text \<open>
  Claim C8. For an authorized owner, an approval of more than the owner's balance
  returns false, leaves the storage as it was and dispatches no event; any other
  approval returns true and writes the current allowance of the pair plus the amount.
  Approving 5 and then 3, the balance sufficing each time, leaves the allowance 8 above
  what it was, so 8 for a pair with no allowance before.
\<close>

theorem approve_additive_capped:
  assumes "witnesses s ow"
  shows "(Get s ow < a \<longrightarrow>
            \<not> fst (DoApprove ow sp a s)
            \<and> storage (snd (DoApprove ow sp a s)) = storage s
            \<and> notifications (snd (DoApprove ow sp a s)) = notifications s)
       \<and> (a \<le> Get s ow \<longrightarrow>
            fst (DoApprove ow sp a s)
            \<and> storage (snd (DoApprove ow sp a s)) =
                (storage s)(concat_bytes ow sp \<mapsto> fst (GetAllowance ow sp s) + a))
       \<and> (5 \<le> Get s ow \<and> 3 \<le> Get (snd (DoApprove ow sp 5 s)) ow \<longrightarrow>
            fst (DoApprove ow sp 5 s)
            \<and> fst (DoApprove ow sp 3 (snd (DoApprove ow sp 5 s)))
            \<and> fst (GetAllowance ow sp (snd (DoApprove ow sp 3 (snd (DoApprove ow sp 5 s)))))
                = fst (GetAllowance ow sp s) + 8)"
proof -
  have low: "Get s ow < a \<longrightarrow>
      \<not> fst (DoApprove ow sp a s)
      \<and> storage (snd (DoApprove ow sp a s)) = storage s
      \<and> notifications (snd (DoApprove ow sp a s)) = notifications s"
    by (simp add: DoApprove_fst DoApprove_storage DoApprove_notifications)
  have ok: "a \<le> Get s ow \<longrightarrow>
      fst (DoApprove ow sp a s)
      \<and> storage (snd (DoApprove ow sp a s)) =
          (storage s)(concat_bytes ow sp \<mapsto> fst (GetAllowance ow sp s) + a)"
    using assms by (simp add: DoApprove_fst DoApprove_storage GetAllowance_eq)
  have twice: "5 \<le> Get s ow \<and> 3 \<le> Get (snd (DoApprove ow sp 5 s)) ow \<longrightarrow>
      fst (DoApprove ow sp 5 s)
      \<and> fst (DoApprove ow sp 3 (snd (DoApprove ow sp 5 s)))
      \<and> fst (GetAllowance ow sp (snd (DoApprove ow sp 3 (snd (DoApprove ow sp 5 s)))))
          = fst (GetAllowance ow sp s) + 8"
  proof
    assume h: "5 \<le> Get s ow \<and> 3 \<le> Get (snd (DoApprove ow sp 5 s)) ow"
    let ?s1 = "snd (DoApprove ow sp 5 s)"
    from h assms have first: "fst (DoApprove ow sp 5 s)" by (simp add: DoApprove_fst)
    from h assms have second: "fst (DoApprove ow sp 3 ?s1)"
      by (simp add: DoApprove_fst[of ow sp 3] DoApprove_witnesses)
    have "Get (snd (DoApprove ow sp 3 ?s1)) (concat_bytes ow sp)
        = Get ?s1 (concat_bytes ow sp) + 3"
      using second by (simp add: Get_after_DoApprove[of ow sp 3])
    also have "Get ?s1 (concat_bytes ow sp) = Get s (concat_bytes ow sp) + 5"
      using first by (simp add: Get_after_DoApprove[of ow sp 5])
    finally show "fst (DoApprove ow sp 5 s)
      \<and> fst (DoApprove ow sp 3 ?s1)
      \<and> fst (GetAllowance ow sp (snd (DoApprove ow sp 3 ?s1)))
          = fst (GetAllowance ow sp s) + 8"
      using first second by (simp add: GetAllowance_eq)
  qed
  from low ok twice show ?thesis by blast
qed

text \<open>
  With a balance of 100 and no allowance: approving 101 is refused, and approving 5 and
  then 3 leaves the allowance 8.
\<close>

theorem approve_additive_capped_witness:
  "witnesses (ledger (Map.empty(alice \<mapsto> 100))) alice
   \<and> Get (ledger (Map.empty(alice \<mapsto> 100))) alice < 101
   \<and> \<not> fst (DoApprove alice bob 101 (ledger (Map.empty(alice \<mapsto> 100))))
   \<and> storage (snd (DoApprove alice bob 101 (ledger (Map.empty(alice \<mapsto> 100)))))
       = Map.empty(alice \<mapsto> 100)
   \<and> fst (DoApprove alice bob 5 (ledger (Map.empty(alice \<mapsto> 100))))
   \<and> storage (snd (DoApprove alice bob 5 (ledger (Map.empty(alice \<mapsto> 100)))))
       = Map.empty(alice \<mapsto> 100, concat_bytes alice bob \<mapsto> 5)
   \<and> fst (DoApprove alice bob 3 (snd (DoApprove alice bob 5
            (ledger (Map.empty(alice \<mapsto> 100))))))
   \<and> fst (GetAllowance alice bob (snd (DoApprove alice bob 3 (snd (DoApprove alice bob 5
            (ledger (Map.empty(alice \<mapsto> 100)))))))) = 8"
proof -
  let ?s = "ledger (Map.empty(alice \<mapsto> 100))"
  have auth: "witnesses ?s alice" by (simp add: scenario_defs)
  have bal: "Get ?s alice = 100" by (simp add: scenario_defs)
  have bal1: "Get (snd (DoApprove alice bob 5 ?s)) alice = 100"
    by (simp add: Get_after_DoApprove scenario_defs)
  have none: "fst (GetAllowance alice bob ?s) = 0"
    by (simp add: GetAllowance_eq scenario_defs)
  from approve_additive_capped[OF auth, of 101 bob] approve_additive_capped[OF auth, of 5 bob]
    auth bal bal1 none
  show ?thesis by (simp add: ledger_fields)
qed

section \<open>What the two transfer paths write and delete\<close>

text \<open>
  Claim C9, as stated, fails: an authorized transfer of 5 from an address holding
  exactly 5 to itself succeeds and the balance key is still in the storage.
\<close>

theorem transfer_self_keeps_key:
  "fst (DoTransfer alice alice 5 (ledger (Map.empty(alice \<mapsto> 5))))
   \<and> Get (ledger (Map.empty(alice \<mapsto> 5))) alice = 5
   \<and> storage (snd (DoTransfer alice alice 5 (ledger (Map.empty(alice \<mapsto> 5))))) alice
       = Some 5"
  by (simp add: DoTransfer_fst DoTransfer_storage scenario_defs)

text \<open>
  Claim C9, amended. A successful direct transfer between two different addresses
  deletes the sender's balance key exactly when the balance equals the amount and
  otherwise writes the balance less the amount. A successful delegated transfer writes
  the allowance key, then the recipient's key, then the sender's key (so a zero is
  stored as a zero) and deletes nothing: the keys of the storage afterwards are those
  before together with these three.
\<close>

theorem storage_hygiene_asymmetry:
  "(fst (DoTransfer f t a s) \<and> f \<noteq> t \<longrightarrow>
      storage (snd (DoTransfer f t a s)) f
        = (if Get s f = a then None else Some (Get s f - a)))
   \<and> (fst (DoTransferFrom f t a s) \<longrightarrow>
      storage (snd (DoTransferFrom f t a s)) =
        (storage s)(concat_bytes f t \<mapsto> Get s (concat_bytes f t) - a,
                    t \<mapsto> Get s t + a, f \<mapsto> Get s f - a)
      \<and> dom (storage (snd (DoTransferFrom f t a s)))
          = dom (storage s) \<union> {f, t, concat_bytes f t})"
proof -
  have direct: "fst (DoTransfer f t a s) \<and> f \<noteq> t \<longrightarrow>
      storage (snd (DoTransfer f t a s)) f
        = (if Get s f = a then None else Some (Get s f - a))"
    by (simp add: DoTransfer_fst DoTransfer_storage)
  have delegated: "fst (DoTransferFrom f t a s) \<longrightarrow>
      storage (snd (DoTransferFrom f t a s)) =
        (storage s)(concat_bytes f t \<mapsto> Get s (concat_bytes f t) - a,
                    t \<mapsto> Get s t + a, f \<mapsto> Get s f - a)
      \<and> dom (storage (snd (DoTransferFrom f t a s)))
          = dom (storage s) \<union> {f, t, concat_bytes f t}"
    by (auto simp: DoTransferFrom_storage)
  from direct delegated show ?thesis by blast
qed

text \<open>
  A balance of 100 and an allowance of 100, all of it moved: the direct transfer removes
  the sender's key, the delegated transfer stores zero under it and under the allowance
  key.
\<close>

theorem storage_hygiene_asymmetry_witness:
  "fst (DoTransfer alice bob 100
        (ledger (Map.empty(alice \<mapsto> 100, concat_bytes alice bob \<mapsto> 100))))
   \<and> alice \<noteq> bob
   \<and> storage (snd (DoTransfer alice bob 100
        (ledger (Map.empty(alice \<mapsto> 100, concat_bytes alice bob \<mapsto> 100))))) alice = None
   \<and> fst (DoTransferFrom alice bob 100
        (ledger (Map.empty(alice \<mapsto> 100, concat_bytes alice bob \<mapsto> 100))))
   \<and> storage (snd (DoTransferFrom alice bob 100
        (ledger (Map.empty(alice \<mapsto> 100, concat_bytes alice bob \<mapsto> 100)))))
       = Map.empty(concat_bytes alice bob \<mapsto> 0, bob \<mapsto> 100, alice \<mapsto> 0)"
proof -
  let ?s = "ledger (Map.empty(alice \<mapsto> 100, concat_bytes alice bob \<mapsto> 100))"
  have ne: "alice \<noteq> bob" by (simp add: alice_def bob_def)
  have ok1: "fst (DoTransfer alice bob 100 ?s)" by (simp add: DoTransfer_fst scenario_defs)
  have ok2: "fst (DoTransferFrom alice bob 100 ?s)"
    by (simp add: DoTransferFrom_fst scenario_defs)
  have vals: "Get ?s alice = 100" "Get ?s bob = 0" "Get ?s (concat_bytes alice bob) = 100"
    by (simp_all add: scenario_defs)
  have st: "storage ?s = Map.empty(alice \<mapsto> 100, concat_bytes alice bob \<mapsto> 100)"
    by (simp add: ledger_fields)
  from storage_hygiene_asymmetry[of alice bob 100 ?s] ne ok1 ok2
  have "storage (snd (DoTransfer alice bob 100 ?s)) alice = None
      \<and> storage (snd (DoTransferFrom alice bob 100 ?s)) =
        (storage ?s)(concat_bytes alice bob \<mapsto> 0, bob \<mapsto> 100, alice \<mapsto> 0)"
    by (simp add: vals)
  then have "storage (snd (DoTransfer alice bob 100 ?s)) alice = None
      \<and> storage (snd (DoTransferFrom alice bob 100 ?s)) =
        Map.empty(concat_bytes alice bob \<mapsto> 0, bob \<mapsto> 100, alice \<mapsto> 0)"
    by (simp add: st fun_eq_iff scenario_defs)
  with ne ok1 ok2 show ?thesis by simp
qed

section \<open>A delegated transfer from an address to itself\<close>

text \<open>
  Claim C10. A delegated transfer of a positive amount from an address to itself, with
  the allowance under the key of the pair (from, from) and the balance both at least the
  amount, returns true and leaves the balance reduced by the amount: the write of the
  sender's balance comes last and replaces the recipient's. Over any finite set of
  addresses that holds the address and not the allowance key, the sum of the balances
  falls by the amount.
\<close>

theorem transferFrom_self_destroys:
  assumes "0 < a" and "a \<le> Get s (concat_bytes f f)" and "a \<le> Get s f"
  shows "fst (DoTransferFrom f f a s)
       \<and> Get (snd (DoTransferFrom f f a s)) f = Get s f - a
       \<and> storage (snd (DoTransferFrom f f a s)) f = Some (Get s f - a)
       \<and> (finite A \<and> f \<in> A \<and> concat_bytes f f \<notin> A \<longrightarrow>
            balance_sum A (snd (DoTransferFrom f f a s)) = balance_sum A s - a)"
proof -
  have ok: "fst (DoTransferFrom f f a s)" using assms by (simp add: DoTransferFrom_fst)
  have G: "\<And>k. Get (snd (DoTransferFrom f f a s)) k =
      (if k = f then Get s f - a
       else if k = concat_bytes f f then Get s (concat_bytes f f) - a else Get s k)"
    using ok by (simp add: Get_after_DoTransferFrom)
  have st: "storage (snd (DoTransferFrom f f a s)) f = Some (Get s f - a)"
    using ok by (simp add: DoTransferFrom_storage)
  have burn: "finite A \<and> f \<in> A \<and> concat_bytes f f \<notin> A \<longrightarrow>
      balance_sum A (snd (DoTransferFrom f f a s)) = balance_sum A s - a"
  proof
    assume h: "finite A \<and> f \<in> A \<and> concat_bytes f f \<notin> A"
    then have fin: "finite A" and mem: "f \<in> A" by simp_all
    have rest: "(\<Sum>k\<in>A - {f}. Get (snd (DoTransferFrom f f a s)) k) = (\<Sum>k\<in>A - {f}. Get s k)"
      using h by (intro sum.cong) (auto simp: G)
    show "balance_sum A (snd (DoTransferFrom f f a s)) = balance_sum A s - a"
      unfolding balance_sum_def
      by (simp only: sum.remove[OF fin mem] rest) (simp add: G)
  qed
  from ok G st burn show ?thesis by simp
qed

theorem transferFrom_self_destroys_witness:
  "(0::int) < 30
   \<and> 30 \<le> Get (ledger (Map.empty(alice \<mapsto> 100, concat_bytes alice alice \<mapsto> 30)))
             (concat_bytes alice alice)
   \<and> fst (DoTransferFrom alice alice 30
        (ledger (Map.empty(alice \<mapsto> 100, concat_bytes alice alice \<mapsto> 30))))
   \<and> Get (snd (DoTransferFrom alice alice 30
        (ledger (Map.empty(alice \<mapsto> 100, concat_bytes alice alice \<mapsto> 30))))) alice = 70
   \<and> balance_sum {alice} (snd (DoTransferFrom alice alice 30
        (ledger (Map.empty(alice \<mapsto> 100, concat_bytes alice alice \<mapsto> 30))))) = 70"
proof -
  let ?s = "ledger (Map.empty(alice \<mapsto> 100, concat_bytes alice alice \<mapsto> 30))"
  have pos: "(0::int) < 30" by simp
  have allow: "30 \<le> Get ?s (concat_bytes alice alice)" by (simp add: scenario_defs)
  have bal: "30 \<le> Get ?s alice" by (simp add: scenario_defs)
  have A: "finite {alice}" "alice \<in> {alice}" "concat_bytes alice alice \<notin> {alice}"
    by (simp_all add: scenario_defs)
  have before: "Get ?s alice = 100" "balance_sum {alice} ?s = 100"
    by (simp_all add: scenario_defs)
  from transferFrom_self_destroys[OF pos allow bal, of "{alice}"] A allow before
  show ?thesis by simp
qed

end
